theory Spec2Isabelle
  imports Main "HOL-Library.AList" "HOL-Library.Word"
begin

section \<open>The library exercise of \<^verbatim>\<open>Self-Study-Gtest/project_library.cpp\<close>\<close>

text \<open>
  The file holds three domain classes (\<^verbatim>\<open>Book\<close>, \<^verbatim>\<open>Member\<close>, \<^verbatim>\<open>Library\<close>), the
  interface \<^verbatim>\<open>INotificationService\<close> and its recording double
  \<^verbatim>\<open>FakeNotificationService\<close>. Objects become records, member functions become
  functions from the object to the updated object, and the two \<^verbatim>\<open>std::map\<close>s of the
  library become association lists read with \<^const>\<open>map_of\<close> and written with
  \<^const>\<open>AList.update\<close>, which replaces the entry of a key that is present and adds one
  otherwise, as \<^verbatim>\<open>books[id] = ...\<close> does. The list keeps its entries in the order of
  their first insertion where the \<^verbatim>\<open>std::map\<close> keeps them in key order; the only
  iteration in the file counts entries, so the order is never observed. Every \<^verbatim>\<open>new\<close>
  yields an object of its own, so no two keys share a record and an update through the
  pointer found under a key is an update of that key's entry.
\<close>

subsection \<open>Book\<close>

record Book =
  book_id :: string
  title :: string
  author :: string
  available :: bool

text \<open>The constructor \<^verbatim>\<open>Book(id, title, author)\<close>: a new book is available.\<close>

definition new_Book :: "string \<Rightarrow> string \<Rightarrow> string \<Rightarrow> Book" where
  "new_Book i t a = \<lparr>book_id = i, title = t, author = a, available = True\<rparr>"

definition getTitle :: "Book \<Rightarrow> string" where
  "getTitle b = title b"

definition isAvailable :: "Book \<Rightarrow> bool" where
  "isAvailable b = available b"

definition markBorrowed :: "Book \<Rightarrow> Book" where
  "markBorrowed b = b\<lparr>available := False\<rparr>"

definition markReturned :: "Book \<Rightarrow> Book" where
  "markReturned b = b\<lparr>available := True\<rparr>"

subsection \<open>Member\<close>

text \<open>
  \<^verbatim>\<open>maxBooks\<close> is a C++ \<^verbatim>\<open>int\<close>, here a 32-bit word read as two's complement
  by \<^const>\<open>sint\<close>; the vector of borrowed ids is a list.
\<close>

record Member =
  member_id :: string
  name :: string
  borrowedBookIds :: "string list"
  maxBooks :: "32 word"

text \<open>
  The constructor \<^verbatim>\<open>Member(id, name, maxBooks = 3)\<close>: nothing borrowed yet. The library
  only ever calls it with two arguments.
\<close>

definition new_Member :: "string \<Rightarrow> string \<Rightarrow> 32 word \<Rightarrow> Member" where
  "new_Member i n k = \<lparr>member_id = i, name = n, borrowedBookIds = [], maxBooks = k\<rparr>"

text \<open>
  \<^verbatim>\<open>canBorrow\<close> is \<^verbatim>\<open>borrowedBookIds.size() < maxBooks\<close>. The left operand is a
  \<^verbatim>\<open>size_t\<close>, so the \<^verbatim>\<open>int\<close> on the right is converted to \<^verbatim>\<open>size_t\<close> before the
  comparison (64 bits here): a negative limit becomes a huge unsigned one.
\<close>

definition canBorrow :: "Member \<Rightarrow> bool" where
  "canBorrow m \<longleftrightarrow> length (borrowedBookIds m) < unat (scast (maxBooks m) :: 64 word)"

definition addBorrowedBook :: "Member \<Rightarrow> string \<Rightarrow> Member" where
  "addBorrowedBook m bookId = m\<lparr>borrowedBookIds := borrowedBookIds m @ [bookId]\<rparr>"

text \<open>
  The loop of \<^verbatim>\<open>removeBorrowedBook\<close>: walk the vector, erase the first element equal
  to \<^verbatim>\<open>bookId\<close> and report \<^verbatim>\<open>true\<close>; report \<^verbatim>\<open>false\<close> at the end.
\<close>

fun erase_first :: "string \<Rightarrow> string list \<Rightarrow> bool \<times> string list" where
  "erase_first bookId [] = (False, [])"
| "erase_first bookId (x # xs) =
     (if x = bookId then (True, xs)
      else (case erase_first bookId xs of (found, ys) \<Rightarrow> (found, x # ys)))"

definition removeBorrowedBook :: "Member \<Rightarrow> string \<Rightarrow> bool \<times> Member" where
  "removeBorrowedBook m bookId =
     (case erase_first bookId (borrowedBookIds m) of
        (found, ys) \<Rightarrow> (found, m\<lparr>borrowedBookIds := ys\<rparr>))"

text \<open>The loop of \<^verbatim>\<open>hasBorrowedBook\<close>: a linear scan that stops at the first match.\<close>

fun scan_for :: "string \<Rightarrow> string list \<Rightarrow> bool" where
  "scan_for bookId [] = False"
| "scan_for bookId (x # xs) = (if x = bookId then True else scan_for bookId xs)"

definition hasBorrowedBook :: "Member \<Rightarrow> string \<Rightarrow> bool" where
  "hasBorrowedBook m bookId = scan_for bookId (borrowedBookIds m)"

subsection \<open>The notification service\<close>

text \<open>
  The library holds a pointer to an \<^verbatim>\<open>INotificationService\<close>. The implementation in
  the file is \<^verbatim>\<open>FakeNotificationService\<close>, which appends each call to a vector of
  (recipient, message) pairs; that vector is the record of the calls made.
\<close>

record FakeNotificationService =
  sentNotifications :: "(string \<times> string) list"

definition sendNotification ::
  "FakeNotificationService \<Rightarrow> string \<Rightarrow> string \<Rightarrow> FakeNotificationService" where
  "sendNotification ns memberId message =
     ns\<lparr>sentNotifications := sentNotifications ns @ [(memberId, message)]\<rparr>"

definition getNotificationCount :: "FakeNotificationService \<Rightarrow> int" where
  "getNotificationCount ns = int (length (sentNotifications ns))"

definition getLastMessage :: "FakeNotificationService \<Rightarrow> string" where
  "getLastMessage ns =
     (if sentNotifications ns = [] then [] else snd (last (sentNotifications ns)))"

definition getLastRecipient :: "FakeNotificationService \<Rightarrow> string" where
  "getLastRecipient ns =
     (if sentNotifications ns = [] then [] else fst (last (sentNotifications ns)))"

definition clear :: "FakeNotificationService \<Rightarrow> FakeNotificationService" where
  "clear ns = ns\<lparr>sentNotifications := []\<rparr>"

subsection \<open>Library\<close>

text \<open>
  The state of a library is its two maps together with the service its pointer refers
  to, since a successful call changes all three.
\<close>

record Library =
  books :: "(string \<times> Book) list"
  members :: "(string \<times> Member) list"
  notificationService :: FakeNotificationService

text \<open>The constructor \<^verbatim>\<open>Library(notifService)\<close>: both maps empty.\<close>

definition new_Library :: "FakeNotificationService \<Rightarrow> Library" where
  "new_Library ns = \<lparr>books = [], members = [], notificationService = ns\<rparr>"

definition addBook :: "Library \<Rightarrow> string \<Rightarrow> string \<Rightarrow> string \<Rightarrow> Library" where
  "addBook lib i t a = lib\<lparr>books := AList.update i (new_Book i t a) (books lib)\<rparr>"

text \<open>\<^verbatim>\<open>findBook\<close> and \<^verbatim>\<open>findMember\<close>: the null pointer is \<^const>\<open>None\<close>.\<close>

definition findBook :: "Library \<Rightarrow> string \<Rightarrow> Book option" where
  "findBook lib i = map_of (books lib) i"

definition registerMember :: "Library \<Rightarrow> string \<Rightarrow> string \<Rightarrow> Library" where
  "registerMember lib i n = lib\<lparr>members := AList.update i (new_Member i n 3) (members lib)\<rparr>"

definition findMember :: "Library \<Rightarrow> string \<Rightarrow> Member option" where
  "findMember lib i = map_of (members lib) i"

text \<open>\<^verbatim>\<open>getAvailableBookCount\<close>: one pass over the map, counting the available books.\<close>

definition getAvailableBookCount :: "Library \<Rightarrow> int" where
  "getAvailableBookCount lib = int (length (filter (\<lambda>p. isAvailable (snd p)) (books lib)))"

text \<open>
  \<^verbatim>\<open>borrowBook\<close>: the three validation returns, then the two mutations through the
  pointers found, then the notification.
\<close>

definition borrowBook :: "Library \<Rightarrow> string \<Rightarrow> string \<Rightarrow> bool \<times> Library" where
  "borrowBook lib memberId bookId =
     (case findMember lib memberId of
        None \<Rightarrow> (False, lib)
      | Some member \<Rightarrow>
          (case findBook lib bookId of
             None \<Rightarrow> (False, lib)
           | Some book \<Rightarrow>
               if \<not> isAvailable book then (False, lib)
               else if \<not> canBorrow member then (False, lib)
               else
                 let book' = markBorrowed book;
                     member' = addBorrowedBook member bookId;
                     message = ''You have borrowed: '' @ getTitle book'
                 in (True,
                     lib\<lparr>books := AList.update bookId book' (books lib),
                         members := AList.update memberId member' (members lib),
                         notificationService :=
                           sendNotification (notificationService lib) memberId message\<rparr>)))"

text \<open>
  \<^verbatim>\<open>returnBook\<close>: the validation asks only whether the member holds the id; the
  result of \<^verbatim>\<open>removeBorrowedBook\<close> is dropped.
\<close>

definition returnBook :: "Library \<Rightarrow> string \<Rightarrow> string \<Rightarrow> bool \<times> Library" where
  "returnBook lib memberId bookId =
     (case findMember lib memberId of
        None \<Rightarrow> (False, lib)
      | Some member \<Rightarrow>
          (case findBook lib bookId of
             None \<Rightarrow> (False, lib)
           | Some book \<Rightarrow>
               if \<not> hasBorrowedBook member bookId then (False, lib)
               else
                 let book' = markReturned book;
                     member' = snd (removeBorrowedBook member bookId);
                     message = ''You have returned: '' @ getTitle book'
                 in (True,
                     lib\<lparr>books := AList.update bookId book' (books lib),
                         members := AList.update memberId member' (members lib),
                         notificationService :=
                           sendNotification (notificationService lib) memberId message\<rparr>)))"

subsection \<open>Calls in sequence\<close>

text \<open>
  The library has one caller and no thread of its own. A history of a library is a list
  of calls of its four mutating functions, each made in the state the one before left;
  the results of \<^verbatim>\<open>borrowBook\<close> and \<^verbatim>\<open>returnBook\<close> are dropped here.
\<close>

datatype call =
  AddBook string string string
| RegisterMember string string
| BorrowBook string string
| ReturnBook string string

fun step :: "Library \<Rightarrow> call \<Rightarrow> Library" where
  "step lib (AddBook i t a) = addBook lib i t a"
| "step lib (RegisterMember i n) = registerMember lib i n"
| "step lib (BorrowBook m b) = snd (borrowBook lib m b)"
| "step lib (ReturnBook m b) = snd (returnBook lib m b)"

fun run :: "Library \<Rightarrow> call list \<Rightarrow> Library" where
  "run lib [] = lib"
| "run lib (c # cs) = run (step lib c) cs"

text \<open>The fixture's \<^verbatim>\<open>SetUp\<close>: three books and two members over a fresh service.\<close>

definition SetUp :: Library where
  "SetUp = run (new_Library \<lparr>sentNotifications = []\<rparr>)
     [AddBook ''B001'' ''Clean Code'' ''Robert Martin'',
      AddBook ''B002'' ''Design Patterns'' ''Gang of Four'',
      AddBook ''B003'' ''The Pragmatic Programmer'' ''Hunt & Thomas'',
      RegisterMember ''M001'' ''Alice'',
      RegisterMember ''M002'' ''Bob'']"

section \<open>The vocabulary of the specification\<close>

text \<open>
  The specification calls a member ``at capacity'' when the number of borrowed ids has
  reached the limit, both read as numbers.
\<close>

definition at_capacity :: "Member \<Rightarrow> bool" where
  "at_capacity m \<longleftrightarrow> sint (maxBooks m) \<le> int (length (borrowedBookIds m))"

text \<open>
  The four causes of a rejected \<^verbatim>\<open>borrowBook\<close> and the three of a rejected
  \<^verbatim>\<open>returnBook\<close>, as the specification lists them.
\<close>

definition borrow_rejected :: "Library \<Rightarrow> string \<Rightarrow> string \<Rightarrow> bool" where
  "borrow_rejected lib memberId bookId \<longleftrightarrow>
     findMember lib memberId = None \<or> findBook lib bookId = None \<or>
     (\<exists>b. findBook lib bookId = Some b \<and> available b = False) \<or>
     (\<exists>m. findMember lib memberId = Some m \<and> at_capacity m)"

definition return_rejected :: "Library \<Rightarrow> string \<Rightarrow> string \<Rightarrow> bool" where
  "return_rejected lib memberId bookId \<longleftrightarrow>
     findMember lib memberId = None \<or> findBook lib bookId = None \<or>
     (\<exists>m. findMember lib memberId = Some m \<and> bookId \<notin> set (borrowedBookIds m))"

text \<open>
  The entries of the member map whose borrowed sequence contains a given id. ``Exactly
  one member holds the book'' is: this list has length 1.
\<close>

definition holders :: "Library \<Rightarrow> string \<Rightarrow> (string \<times> Member) list" where
  "holders lib bookId = filter (\<lambda>p. hasBorrowedBook (snd p) bookId) (members lib)"

text \<open>
  The global invariant of the data model: every unavailable book is held by exactly one
  member, and every id a member holds is held by that member only and names a stored
  book that is unavailable.
\<close>

definition borrowed_available_bijection :: "Library \<Rightarrow> bool" where
  "borrowed_available_bijection lib \<longleftrightarrow>
     (\<forall>(k, b) \<in> set (books lib).
        \<not> available b \<longrightarrow> length (holders lib (book_id b)) = 1) \<and>
     (\<forall>(k, m) \<in> set (members lib). \<forall>bookId \<in> set (borrowedBookIds m).
        length (holders lib bookId) = 1 \<and>
        (case findBook lib bookId of None \<Rightarrow> False | Some b \<Rightarrow> \<not> available b))"

text \<open>
  \<^verbatim>\<open>addBook\<close> and \<^verbatim>\<open>registerMember\<close> overwrite the entry of an id that is already
  stored. A call replaces nothing in use when the book it overwrites, if any, is
  available, and the member it overwrites, if any, holds no book; a sequence of calls
  is careful when each call is so in the state it is made in.
\<close>

fun replaces_nothing_in_use :: "Library \<Rightarrow> call \<Rightarrow> bool" where
  "replaces_nothing_in_use lib (AddBook i t a) =
     (case findBook lib i of None \<Rightarrow> True | Some b \<Rightarrow> available b)"
| "replaces_nothing_in_use lib (RegisterMember i n) =
     (case findMember lib i of None \<Rightarrow> True | Some m \<Rightarrow> borrowedBookIds m = [])"
| "replaces_nothing_in_use lib (BorrowBook m b) = True"
| "replaces_nothing_in_use lib (ReturnBook m b) = True"

fun careful :: "Library \<Rightarrow> call list \<Rightarrow> bool" where
  "careful lib [] = True"
| "careful lib (c # cs) \<longleftrightarrow> replaces_nothing_in_use lib c \<and> careful (step lib c) cs"

text \<open>
  The two inductive invariants behind the claims about reachable states. The first
  carries the bookkeeping that makes the bijection inductive: keys of the book map are
  unique and equal the id stored in the record, no member holds an id twice, and the
  number of holders of an id is 1 for a stored unavailable book and 0 otherwise. The
  second carries the limit: member keys are unique, every limit is 3, and no member
  holds more than 3 ids.
\<close>

definition consistent :: "Library \<Rightarrow> bool" where
  "consistent lib \<longleftrightarrow>
     distinct (map fst (books lib)) \<and>
     (\<forall>(k, b) \<in> set (books lib). book_id b = k) \<and>
     (\<forall>(k, m) \<in> set (members lib). distinct (borrowedBookIds m)) \<and>
     (\<forall>bookId. length (holders lib bookId) =
        (case findBook lib bookId of None \<Rightarrow> 0 | Some b \<Rightarrow> if available b then 0 else 1))"

definition within_limits :: "Library \<Rightarrow> bool" where
  "within_limits lib \<longleftrightarrow>
     distinct (map fst (members lib)) \<and>
     (\<forall>(k, m) \<in> set (members lib). maxBooks m = 3 \<and> length (borrowedBookIds m) \<le> 3)"

text \<open>
  Both maps are keyed by the id that the record itself stores: \<^verbatim>\<open>addBook\<close> and
  \<^verbatim>\<open>registerMember\<close> pass the key to the constructor.
\<close>

definition keyed_by_id :: "Library \<Rightarrow> bool" where
  "keyed_by_id lib \<longleftrightarrow>
     (\<forall>(k, b) \<in> set (books lib). book_id b = k) \<and>
     (\<forall>(k, m) \<in> set (members lib). member_id m = k)"

subsection \<open>States and call sequences used as examples\<close>

text \<open>
  The fixture after Alice has borrowed \<^verbatim>\<open>B001\<close>, and that state after \<^verbatim>\<open>B001\<close> has been
  added a second time.
\<close>

definition alice_holds_B001 :: Library where
  "alice_holds_B001 = snd (borrowBook SetUp ''M001'' ''B001'')"

definition B001_added_again :: Library where
  "B001_added_again = addBook alice_holds_B001 ''B001'' ''Clean Code'' ''Robert Martin''"

text \<open>
  The seed of the specification's scenario lists one member only; this is the fixture
  without \<^verbatim>\<open>M002\<close>.
\<close>

definition seed_without_M002 :: Library where
  "seed_without_M002 = run (new_Library \<lparr>sentNotifications = []\<rparr>)
     [AddBook ''B001'' ''Clean Code'' ''Robert Martin'',
      AddBook ''B002'' ''Design Patterns'' ''Gang of Four'',
      AddBook ''B003'' ''The Pragmatic Programmer'' ''Hunt & Thomas'',
      RegisterMember ''M001'' ''Alice'']"

text \<open>
  Three call sequences from the empty library: one that adds a book again while a member
  holds it; a careful one that borrows, returns and then adds a book and registers a
  member again; and the one of the test \<^verbatim>\<open>CannotBorrowMoreThanMaxBooks\<close> as its
  comment describes it, which fills Alice's limit and then adds a fourth book.
\<close>

definition replaced_while_borrowed :: "call list" where
  "replaced_while_borrowed =
     [AddBook ''B001'' ''Clean Code'' ''Robert Martin'',
      RegisterMember ''M001'' ''Alice'',
      BorrowBook ''M001'' ''B001'',
      AddBook ''B001'' ''Clean Code'' ''Robert Martin'']"

definition borrow_return_add :: "call list" where
  "borrow_return_add =
     [AddBook ''B001'' ''Clean Code'' ''Robert Martin'',
      AddBook ''B002'' ''Design Patterns'' ''Gang of Four'',
      RegisterMember ''M001'' ''Alice'',
      RegisterMember ''M002'' ''Bob'',
      BorrowBook ''M001'' ''B001'',
      BorrowBook ''M002'' ''B002'',
      ReturnBook ''M001'' ''B001'',
      AddBook ''B001'' ''Clean Code'' ''Robert Martin'',
      RegisterMember ''M001'' ''Alice'']"

definition alice_at_limit :: "call list" where
  "alice_at_limit =
     [AddBook ''B001'' ''Clean Code'' ''Robert Martin'',
      AddBook ''B002'' ''Design Patterns'' ''Gang of Four'',
      AddBook ''B003'' ''The Pragmatic Programmer'' ''Hunt & Thomas'',
      RegisterMember ''M001'' ''Alice'',
      RegisterMember ''M002'' ''Bob'',
      BorrowBook ''M001'' ''B001'',
      BorrowBook ''M001'' ''B002'',
      BorrowBook ''M001'' ''B003'',
      AddBook ''B004'' ''Fourth Book'' ''Author'']"

section \<open>Basic facts\<close>

subsection \<open>The two loops of \<^verbatim>\<open>Member\<close>\<close>

lemma erase_first_eq: "erase_first b xs = (b \<in> set xs, remove1 b xs)"
  by (induction xs) auto

lemma scan_for_eq: "scan_for b xs \<longleftrightarrow> b \<in> set xs"
  by (induction xs) auto

lemma hasBorrowedBook_iff: "hasBorrowedBook m b \<longleftrightarrow> b \<in> set (borrowedBookIds m)"
  by (simp add: hasBorrowedBook_def scan_for_eq)

lemma removeBorrowedBook_eq:
  "removeBorrowedBook m b =
     (b \<in> set (borrowedBookIds m), m\<lparr>borrowedBookIds := remove1 b (borrowedBookIds m)\<rparr>)"
  by (simp add: removeBorrowedBook_def erase_first_eq)

subsection \<open>The comparison in \<^verbatim>\<open>canBorrow\<close>\<close>

lemma size_t_of_int: "unat (scast (w::32 word) :: 64 word) = nat (sint w mod 2 ^ 64)"
proof -
  have "uint (scast w :: 64 word) = sint w mod 2 ^ LENGTH(64)"
    by (simp only: scast_eq uint_word_of_int)
  then have "uint (scast w :: 64 word) = sint w mod 2 ^ 64"
    by simp
  then show ?thesis
    by (simp only: unat_eq_nat_uint)
qed

text \<open>
  For a limit that is not negative the conversion changes nothing and \<^const>\<open>canBorrow\<close>
  is the comparison of the two numbers. \<^const>\<open>registerMember\<close> is the only place where
  the library builds a member, always with limit 3.
\<close>

lemma canBorrow_nonneg:
  assumes "0 \<le> sint (maxBooks m)"
  shows "canBorrow m \<longleftrightarrow> int (length (borrowedBookIds m)) < sint (maxBooks m)"
proof -
  have "sint (maxBooks m) < 2 ^ 31" using sint_lt [of "maxBooks m"] by simp
  then have "sint (maxBooks m) mod 2 ^ 64 = sint (maxBooks m)" using assms by simp
  then show ?thesis unfolding canBorrow_def size_t_of_int by linarith
qed

lemma canBorrow_default_limit:
  "maxBooks m = 3 \<Longrightarrow> canBorrow m \<longleftrightarrow> length (borrowedBookIds m) < 3"
  by (simp add: canBorrow_def)

text \<open>A negative limit, which only a direct call of the constructor can produce, never binds.\<close>

lemma canBorrow_negative_limit: "canBorrow (new_Member i n (- 1))"
  by (simp add: canBorrow_def new_Member_def unat_gt_0)

subsection \<open>The two paths of \<^verbatim>\<open>borrowBook\<close> and \<^verbatim>\<open>returnBook\<close>\<close>

lemma borrowBook_success:
  assumes "findMember lib memberId = Some m" and "findBook lib bookId = Some b"
    and "available b" and "canBorrow m"
  shows "borrowBook lib memberId bookId =
    (True,
     lib\<lparr>books := AList.update bookId (b\<lparr>available := False\<rparr>) (books lib),
         members := AList.update memberId
           (m\<lparr>borrowedBookIds := borrowedBookIds m @ [bookId]\<rparr>) (members lib),
         notificationService := (notificationService lib)
           \<lparr>sentNotifications := sentNotifications (notificationService lib) @
              [(memberId, ''You have borrowed: '' @ title b)]\<rparr>\<rparr>)"
  using assms
  by (simp add: borrowBook_def isAvailable_def markBorrowed_def addBorrowedBook_def
      sendNotification_def getTitle_def)

lemma borrowBook_failure:
  assumes "findMember lib memberId = None \<or> findBook lib bookId = None \<or>
    (\<exists>b. findBook lib bookId = Some b \<and> \<not> available b) \<or>
    (\<exists>m. findMember lib memberId = Some m \<and> \<not> canBorrow m)"
  shows "borrowBook lib memberId bookId = (False, lib)"
  using assms
  by (auto simp: borrowBook_def isAvailable_def split: option.splits)

lemma returnBook_success:
  assumes "findMember lib memberId = Some m" and "findBook lib bookId = Some b"
    and "bookId \<in> set (borrowedBookIds m)"
  shows "returnBook lib memberId bookId =
    (True,
     lib\<lparr>books := AList.update bookId (b\<lparr>available := True\<rparr>) (books lib),
         members := AList.update memberId
           (m\<lparr>borrowedBookIds := remove1 bookId (borrowedBookIds m)\<rparr>) (members lib),
         notificationService := (notificationService lib)
           \<lparr>sentNotifications := sentNotifications (notificationService lib) @
              [(memberId, ''You have returned: '' @ title b)]\<rparr>\<rparr>)"
  using assms
  by (simp add: returnBook_def hasBorrowedBook_iff markReturned_def removeBorrowedBook_eq
      sendNotification_def getTitle_def)

lemma returnBook_failure:
  assumes "findMember lib memberId = None \<or> findBook lib bookId = None \<or>
    (\<exists>m. findMember lib memberId = Some m \<and> bookId \<notin> set (borrowedBookIds m))"
  shows "returnBook lib memberId bookId = (False, lib)"
  using assms
  by (auto simp: returnBook_def hasBorrowedBook_iff split: option.splits)

text \<open>Read backwards: what a result of \<^const>\<open>True\<close> or \<^const>\<open>False\<close> says about the call.\<close>

lemma borrowBook_TrueD:
  assumes "borrowBook lib memberId bookId = (True, lib')"
  obtains m b where "findMember lib memberId = Some m" and "findBook lib bookId = Some b"
    and "available b" and "canBorrow m"
    and "lib' = lib\<lparr>books := AList.update bookId (b\<lparr>available := False\<rparr>) (books lib),
         members := AList.update memberId
           (m\<lparr>borrowedBookIds := borrowedBookIds m @ [bookId]\<rparr>) (members lib),
         notificationService := (notificationService lib)
           \<lparr>sentNotifications := sentNotifications (notificationService lib) @
              [(memberId, ''You have borrowed: '' @ title b)]\<rparr>\<rparr>"
proof -
  from assms obtain m b where m: "findMember lib memberId = Some m"
    and b: "findBook lib bookId = Some b" and av: "available b" and cb: "canBorrow m"
    by (auto simp: borrowBook_def isAvailable_def split: option.splits if_splits)
  from assms borrowBook_success [OF m b av cb] that [OF m b av cb] show thesis
    by simp
qed

lemma returnBook_TrueD:
  assumes "returnBook lib memberId bookId = (True, lib')"
  obtains m b where "findMember lib memberId = Some m" and "findBook lib bookId = Some b"
    and "bookId \<in> set (borrowedBookIds m)"
    and "lib' = lib\<lparr>books := AList.update bookId (b\<lparr>available := True\<rparr>) (books lib),
         members := AList.update memberId
           (m\<lparr>borrowedBookIds := remove1 bookId (borrowedBookIds m)\<rparr>) (members lib),
         notificationService := (notificationService lib)
           \<lparr>sentNotifications := sentNotifications (notificationService lib) @
              [(memberId, ''You have returned: '' @ title b)]\<rparr>\<rparr>"
proof -
  from assms obtain m b where m: "findMember lib memberId = Some m"
    and b: "findBook lib bookId = Some b" and held: "bookId \<in> set (borrowedBookIds m)"
    by (auto simp: returnBook_def hasBorrowedBook_iff split: option.splits if_splits)
  from assms returnBook_success [OF m b held] that [OF m b held] show thesis
    by simp
qed

lemma borrowBook_FalseD: "borrowBook lib memberId bookId = (False, lib') \<Longrightarrow> lib' = lib"
  by (auto simp: borrowBook_def Let_def split: option.splits if_splits)

lemma returnBook_FalseD: "returnBook lib memberId bookId = (False, lib') \<Longrightarrow> lib' = lib"
  by (auto simp: returnBook_def Let_def split: option.splits if_splits)

subsection \<open>Lookups and entries after an update\<close>

lemma findBook_update:
  "findBook (lib\<lparr>books := AList.update k v (books lib), members := ms, notificationService := ns\<rparr>) k' =
     (if k' = k then Some v else findBook lib k')"
  by (simp add: findBook_def update_conv')

lemma findMember_update:
  "findMember (lib\<lparr>books := bs, members := AList.update k v (members lib), notificationService := ns\<rparr>) k' =
     (if k' = k then Some v else findMember lib k')"
  by (simp add: findMember_def update_conv')

lemma update_present_keys:
  "map_of al k = Some v \<Longrightarrow> map fst (AList.update k v' al) = map fst al"
  by (auto simp: update_keys dest: map_of_SomeD intro: rev_image_eqI)

lemma in_set_updateD:
  "(a, x) \<in> set (AList.update k v al) \<Longrightarrow> (a, x) = (k, v) \<or> (a, x) \<in> set al"
  by (induction al) (auto split: if_splits)

lemma length_filter_update_Some:
  "map_of al k = Some v0 \<Longrightarrow>
     length (filter P (AList.update k v al)) + (if P (k, v0) then 1 else 0) =
     length (filter P al) + (if P (k, v) then 1 else 0)"
  by (induction al) (auto split: if_splits)

lemma length_filter_update_None:
  "map_of al k = None \<Longrightarrow>
     length (filter P (AList.update k v al)) =
     length (filter P al) + (if P (k, v) then 1 else 0)"
  by (induction al) (auto split: if_splits)

subsection \<open>The example states, evaluated\<close>

lemmas library_defs =
  SetUp_def new_Library_def addBook_def registerMember_def new_Book_def new_Member_def
  findBook_def findMember_def borrowBook_def returnBook_def isAvailable_def canBorrow_def
  markBorrowed_def markReturned_def addBorrowedBook_def removeBorrowedBook_def
  hasBorrowedBook_def sendNotification_def getTitle_def

lemma SetUp_eq:
  "SetUp =
    \<lparr>books =
       [(''B001'', \<lparr>book_id = ''B001'', title = ''Clean Code'',
            author = ''Robert Martin'', available = True\<rparr>),
        (''B002'', \<lparr>book_id = ''B002'', title = ''Design Patterns'',
            author = ''Gang of Four'', available = True\<rparr>),
        (''B003'', \<lparr>book_id = ''B003'', title = ''The Pragmatic Programmer'',
            author = ''Hunt & Thomas'', available = True\<rparr>)],
     members =
       [(''M001'', \<lparr>member_id = ''M001'', name = ''Alice'', borrowedBookIds = [],
            maxBooks = 3\<rparr>),
        (''M002'', \<lparr>member_id = ''M002'', name = ''Bob'', borrowedBookIds = [],
            maxBooks = 3\<rparr>)],
     notificationService = \<lparr>sentNotifications = []\<rparr>\<rparr>"
  by (simp add: SetUp_def new_Library_def addBook_def registerMember_def new_Book_def
      new_Member_def)

lemma alice_holds_B001_eq:
  "alice_holds_B001 =
    \<lparr>books =
       [(''B001'', \<lparr>book_id = ''B001'', title = ''Clean Code'',
            author = ''Robert Martin'', available = False\<rparr>),
        (''B002'', \<lparr>book_id = ''B002'', title = ''Design Patterns'',
            author = ''Gang of Four'', available = True\<rparr>),
        (''B003'', \<lparr>book_id = ''B003'', title = ''The Pragmatic Programmer'',
            author = ''Hunt & Thomas'', available = True\<rparr>)],
     members =
       [(''M001'', \<lparr>member_id = ''M001'', name = ''Alice'',
            borrowedBookIds = [''B001''], maxBooks = 3\<rparr>),
        (''M002'', \<lparr>member_id = ''M002'', name = ''Bob'', borrowedBookIds = [],
            maxBooks = 3\<rparr>)],
     notificationService =
       \<lparr>sentNotifications = [(''M001'', ''You have borrowed: Clean Code'')]\<rparr>\<rparr>"
  unfolding alice_holds_B001_def SetUp_eq
  by (simp add: borrowBook_def findBook_def findMember_def isAvailable_def canBorrow_def
      markBorrowed_def addBorrowedBook_def sendNotification_def getTitle_def)

lemma B001_added_again_eq:
  "B001_added_again =
    \<lparr>books =
       [(''B001'', \<lparr>book_id = ''B001'', title = ''Clean Code'',
            author = ''Robert Martin'', available = True\<rparr>),
        (''B002'', \<lparr>book_id = ''B002'', title = ''Design Patterns'',
            author = ''Gang of Four'', available = True\<rparr>),
        (''B003'', \<lparr>book_id = ''B003'', title = ''The Pragmatic Programmer'',
            author = ''Hunt & Thomas'', available = True\<rparr>)],
     members =
       [(''M001'', \<lparr>member_id = ''M001'', name = ''Alice'',
            borrowedBookIds = [''B001''], maxBooks = 3\<rparr>),
        (''M002'', \<lparr>member_id = ''M002'', name = ''Bob'', borrowedBookIds = [],
            maxBooks = 3\<rparr>)],
     notificationService =
       \<lparr>sentNotifications = [(''M001'', ''You have borrowed: Clean Code'')]\<rparr>\<rparr>"
  unfolding B001_added_again_def alice_holds_B001_eq
  by (simp add: addBook_def new_Book_def)

lemma replaced_while_borrowed_run:
  "run (new_Library \<lparr>sentNotifications = []\<rparr>) replaced_while_borrowed =
    \<lparr>books =
       [(''B001'', \<lparr>book_id = ''B001'', title = ''Clean Code'',
            author = ''Robert Martin'', available = True\<rparr>)],
     members =
       [(''M001'', \<lparr>member_id = ''M001'', name = ''Alice'',
            borrowedBookIds = [''B001''], maxBooks = 3\<rparr>)],
     notificationService =
       \<lparr>sentNotifications = [(''M001'', ''You have borrowed: Clean Code'')]\<rparr>\<rparr>"
  by (simp add: replaced_while_borrowed_def library_defs)

lemma borrow_return_add_careful:
  "careful (new_Library \<lparr>sentNotifications = []\<rparr>) borrow_return_add"
  by (simp add: borrow_return_add_def library_defs)

lemma alice_at_limit_run:
  "run (new_Library \<lparr>sentNotifications = []\<rparr>) alice_at_limit =
    \<lparr>books =
       [(''B001'', \<lparr>book_id = ''B001'', title = ''Clean Code'',
            author = ''Robert Martin'', available = False\<rparr>),
        (''B002'', \<lparr>book_id = ''B002'', title = ''Design Patterns'',
            author = ''Gang of Four'', available = False\<rparr>),
        (''B003'', \<lparr>book_id = ''B003'', title = ''The Pragmatic Programmer'',
            author = ''Hunt & Thomas'', available = False\<rparr>),
        (''B004'', \<lparr>book_id = ''B004'', title = ''Fourth Book'',
            author = ''Author'', available = True\<rparr>)],
     members =
       [(''M001'', \<lparr>member_id = ''M001'', name = ''Alice'',
            borrowedBookIds = [''B001'', ''B002'', ''B003''], maxBooks = 3\<rparr>),
        (''M002'', \<lparr>member_id = ''M002'', name = ''Bob'', borrowedBookIds = [],
            maxBooks = 3\<rparr>)],
     notificationService =
       \<lparr>sentNotifications =
          [(''M001'', ''You have borrowed: Clean Code''),
           (''M001'', ''You have borrowed: Design Patterns''),
           (''M001'', ''You have borrowed: The Pragmatic Programmer'')]\<rparr>\<rparr>"
  by (simp add: alice_at_limit_def library_defs)

text \<open>
  Adding \<^verbatim>\<open>B001\<close> again while Alice holds it puts a fresh available record under the
  key.
\<close>

lemma addBook_replaces_borrowed_book:
  "findBook alice_holds_B001 ''B001'' =
     Some \<lparr>book_id = ''B001'', title = ''Clean Code'', author = ''Robert Martin'',
       available = False\<rparr> \<and>
   findBook (addBook alice_holds_B001 ''B001'' ''Refactoring'' ''Martin Fowler'') ''B001'' =
     Some \<lparr>book_id = ''B001'', title = ''Refactoring'', author = ''Martin Fowler'',
       available = True\<rparr>"
  by (simp add: alice_holds_B001_eq findBook_def addBook_def new_Book_def)

text \<open>
  The scenario of claim C8 on the seed without \<^verbatim>\<open>M002\<close>: the second call is then
  rejected because the member is absent, with the same results.
\<close>

lemma scenario_without_M002:
  "fst (borrowBook seed_without_M002 ''M001'' ''B001'') = True \<and>
   map_option available
     (findBook (snd (borrowBook seed_without_M002 ''M001'' ''B001'')) ''B001'') = Some False \<and>
   sentNotifications
     (notificationService (snd (borrowBook seed_without_M002 ''M001'' ''B001''))) =
     [(''M001'', ''You have borrowed: Clean Code'')] \<and>
   borrowBook (snd (borrowBook seed_without_M002 ''M001'' ''B001'')) ''M002'' ''B001'' =
     (False, snd (borrowBook seed_without_M002 ''M001'' ''B001'')) \<and>
   fst (returnBook (snd (borrowBook seed_without_M002 ''M001'' ''B001'')) ''M001'' ''B001'') =
     True \<and>
   map_option available
     (findBook
        (snd (returnBook (snd (borrowBook seed_without_M002 ''M001'' ''B001''))
           ''M001'' ''B001'')) ''B001'') = Some True"
  by (simp add: seed_without_M002_def library_defs)

section \<open>Invariants of the reachable states\<close>

subsection \<open>Holders and availability\<close>

lemma holder_counted:
  assumes "(k, m) \<in> set (members lib)" and "x \<in> set (borrowedBookIds m)"
  shows "0 < length (holders lib x)"
proof -
  from assms have "(k, m) \<in> set (holders lib x)"
    by (simp add: holders_def hasBorrowedBook_iff)
  then show ?thesis by (rule length_pos_if_in_set)
qed

lemma holders_update_member:
  assumes "findMember lib memberId = Some m" and "members lib' = AList.update memberId m' (members lib)"
  shows "length (holders lib' x) + (if x \<in> set (borrowedBookIds m) then 1 else 0) =
    length (holders lib x) + (if x \<in> set (borrowedBookIds m') then 1 else 0)"
  using assms
    length_filter_update_Some [of "members lib" memberId m "\<lambda>p. hasBorrowedBook (snd p) x" m']
  by (simp add: holders_def hasBorrowedBook_iff findMember_def)

lemma holders_addBook: "holders (addBook lib i t a) x = holders lib x"
  by (simp add: holders_def addBook_def)

lemma consistent_count:
  "consistent lib \<Longrightarrow> length (holders lib x) =
     (case findBook lib x of None \<Rightarrow> 0 | Some b \<Rightarrow> if available b then 0 else 1)"
  by (simp add: consistent_def)

text \<open>
  A successful \<^verbatim>\<open>borrowBook\<close> finds the book available, so nobody holds it, and adds
  one holder; a successful \<^verbatim>\<open>returnBook\<close> finds the member holding it once, so the
  member is the only holder, and removes that holder.
\<close>

lemma consistent_borrowBook:
  assumes c: "consistent lib"
  shows "consistent (snd (borrowBook lib memberId bookId))"
proof (cases "borrowBook lib memberId bookId")
  case (Pair r lib')
  show ?thesis
  proof (cases r)
    case False
    with Pair have "lib' = lib" by (simp add: borrowBook_FalseD)
    with Pair c show ?thesis by simp
  next
    case True
    with Pair have "borrowBook lib memberId bookId = (True, lib')" by simp
    then obtain m b where m: "findMember lib memberId = Some m"
      and b: "findBook lib bookId = Some b" and av: "available b"
      and lib': "lib' = lib\<lparr>books := AList.update bookId (b\<lparr>available := False\<rparr>) (books lib),
         members := AList.update memberId
           (m\<lparr>borrowedBookIds := borrowedBookIds m @ [bookId]\<rparr>) (members lib),
         notificationService := (notificationService lib)
           \<lparr>sentNotifications := sentNotifications (notificationService lib) @
              [(memberId, ''You have borrowed: '' @ title b)]\<rparr>\<rparr>"
      by (rule borrowBook_TrueD)
    have mem: "(memberId, m) \<in> set (members lib)"
      using m by (simp add: findMember_def map_of_SomeD)
    have bk: "(bookId, b) \<in> set (books lib)"
      using b by (simp add: findBook_def map_of_SomeD)
    have "length (holders lib bookId) = 0"
      using consistent_count [OF c, of bookId] b av by simp
    with holder_counted [OF mem, of bookId] have fresh: "bookId \<notin> set (borrowedBookIds m)"
      by auto
    have cnt: "length (holders lib' x) = length (holders lib x) + (if x = bookId then 1 else 0)"
      for x
      using holders_update_member [OF m, of lib'
          "m\<lparr>borrowedBookIds := borrowedBookIds m @ [bookId]\<rparr>" x] fresh
      by (auto simp: lib')
    have 1: "distinct (map fst (books lib'))"
      using c by (simp add: lib' consistent_def distinct_update)
    have 2: "\<forall>(k, b) \<in> set (books lib'). book_id b = k"
      using c bk by (auto simp: lib' consistent_def dest!: in_set_updateD)
    have 3: "\<forall>(k, m) \<in> set (members lib'). distinct (borrowedBookIds m)"
      using c mem fresh by (auto simp: lib' consistent_def dest!: in_set_updateD)
    have fb: "findBook lib' x =
        (if x = bookId then Some (b\<lparr>available := False\<rparr>) else findBook lib x)" for x
      by (simp add: lib' findBook_update)
    have 4: "\<forall>x. length (holders lib' x) =
        (case findBook lib' x of None \<Rightarrow> 0 | Some b \<Rightarrow> if available b then 0 else 1)"
      using consistent_count [OF c] b av by (simp add: cnt fb)
    from Pair 1 2 3 4 show ?thesis by (simp add: consistent_def)
  qed
qed

lemma consistent_returnBook:
  assumes c: "consistent lib"
  shows "consistent (snd (returnBook lib memberId bookId))"
proof (cases "returnBook lib memberId bookId")
  case (Pair r lib')
  show ?thesis
  proof (cases r)
    case False
    with Pair have "lib' = lib" by (simp add: returnBook_FalseD)
    with Pair c show ?thesis by simp
  next
    case True
    with Pair have "returnBook lib memberId bookId = (True, lib')" by simp
    then obtain m b where m: "findMember lib memberId = Some m"
      and b: "findBook lib bookId = Some b" and held: "bookId \<in> set (borrowedBookIds m)"
      and lib': "lib' = lib\<lparr>books := AList.update bookId (b\<lparr>available := True\<rparr>) (books lib),
         members := AList.update memberId
           (m\<lparr>borrowedBookIds := remove1 bookId (borrowedBookIds m)\<rparr>) (members lib),
         notificationService := (notificationService lib)
           \<lparr>sentNotifications := sentNotifications (notificationService lib) @
              [(memberId, ''You have returned: '' @ title b)]\<rparr>\<rparr>"
      by (rule returnBook_TrueD)
    have mem: "(memberId, m) \<in> set (members lib)"
      using m by (simp add: findMember_def map_of_SomeD)
    have bk: "(bookId, b) \<in> set (books lib)"
      using b by (simp add: findBook_def map_of_SomeD)
    have dist: "distinct (borrowedBookIds m)"
      using c mem by (auto simp: consistent_def)
    have one: "length (holders lib bookId) = 1"
      using consistent_count [OF c, of bookId] holder_counted [OF mem held] b
      by (simp split: if_splits)
    have cnt: "length (holders lib' x) + (if x = bookId then 1 else 0) = length (holders lib x)"
      for x
      using holders_update_member [OF m, of lib'
          "m\<lparr>borrowedBookIds := remove1 bookId (borrowedBookIds m)\<rparr>" x] held dist
      by (auto simp: lib')
    have cnt': "length (holders lib' x) = (if x = bookId then 0 else length (holders lib x))"
      for x
      using cnt [of x] one by (simp split: if_splits)
    have 1: "distinct (map fst (books lib'))"
      using c by (simp add: lib' consistent_def distinct_update)
    have 2: "\<forall>(k, b) \<in> set (books lib'). book_id b = k"
      using c bk by (auto simp: lib' consistent_def dest!: in_set_updateD)
    have 3: "\<forall>(k, m) \<in> set (members lib'). distinct (borrowedBookIds m)"
      using c mem by (auto simp: lib' consistent_def dest!: in_set_updateD)
    have fb: "findBook lib' x =
        (if x = bookId then Some (b\<lparr>available := True\<rparr>) else findBook lib x)" for x
      by (simp add: lib' findBook_update)
    have 4: "\<forall>x. length (holders lib' x) =
        (case findBook lib' x of None \<Rightarrow> 0 | Some b \<Rightarrow> if available b then 0 else 1)"
      using consistent_count [OF c] by (simp add: cnt' fb)
    from Pair 1 2 3 4 show ?thesis by (simp add: consistent_def)
  qed
qed

text \<open>The two overwriting calls keep the invariant when they replace nothing in use.\<close>

lemma consistent_addBook:
  assumes c: "consistent lib" and ok: "replaces_nothing_in_use lib (AddBook i t a)"
  shows "consistent (addBook lib i t a)"
proof -
  have zero: "length (holders lib i) = 0"
    using consistent_count [OF c, of i] ok by (auto split: option.splits)
  have fb: "findBook (addBook lib i t a) x =
      (if x = i then Some (new_Book i t a) else findBook lib x)" for x
    by (simp add: findBook_def addBook_def update_conv')
  have 1: "distinct (map fst (books (addBook lib i t a)))"
    using c by (simp add: addBook_def consistent_def distinct_update)
  have 2: "\<forall>(k, b) \<in> set (books (addBook lib i t a)). book_id b = k"
    using c by (auto simp: addBook_def consistent_def new_Book_def dest!: in_set_updateD)
  have 3: "\<forall>(k, m) \<in> set (members (addBook lib i t a)). distinct (borrowedBookIds m)"
    using c by (simp add: addBook_def consistent_def)
  have 4: "\<forall>x. length (holders (addBook lib i t a) x) =
      (case findBook (addBook lib i t a) x of None \<Rightarrow> 0
       | Some b \<Rightarrow> if available b then 0 else 1)"
    using consistent_count [OF c] zero by (simp add: holders_addBook fb new_Book_def)
  from 1 2 3 4 show ?thesis by (simp add: consistent_def)
qed

lemma consistent_registerMember:
  assumes c: "consistent lib" and ok: "replaces_nothing_in_use lib (RegisterMember i n)"
  shows "consistent (registerMember lib i n)"
proof -
  have cnt: "length (holders (registerMember lib i n) x) = length (holders lib x)" for x
  proof (cases "findMember lib i")
    case None
    then show ?thesis
      using length_filter_update_None [of "members lib" i
          "\<lambda>p. hasBorrowedBook (snd p) x" "new_Member i n 3"]
      by (simp add: holders_def registerMember_def findMember_def hasBorrowedBook_iff
          new_Member_def)
  next
    case (Some m)
    with ok have "borrowedBookIds m = []" by simp
    with Some show ?thesis
      using length_filter_update_Some [of "members lib" i m
          "\<lambda>p. hasBorrowedBook (snd p) x" "new_Member i n 3"]
      by (simp add: holders_def registerMember_def findMember_def hasBorrowedBook_iff
          new_Member_def)
  qed
  have 1: "distinct (map fst (books (registerMember lib i n)))"
    using c by (simp add: registerMember_def consistent_def)
  have 2: "\<forall>(k, b) \<in> set (books (registerMember lib i n)). book_id b = k"
    using c by (simp add: registerMember_def consistent_def)
  have 3: "\<forall>(k, m) \<in> set (members (registerMember lib i n)). distinct (borrowedBookIds m)"
    using c by (auto simp: registerMember_def consistent_def new_Member_def dest!: in_set_updateD)
  have 4: "\<forall>x. length (holders (registerMember lib i n) x) =
      (case findBook (registerMember lib i n) x of None \<Rightarrow> 0
       | Some b \<Rightarrow> if available b then 0 else 1)"
    using consistent_count [OF c] by (simp add: cnt) (simp add: findBook_def registerMember_def)
  from 1 2 3 4 show ?thesis by (simp add: consistent_def)
qed

lemma consistent_step:
  "consistent lib \<Longrightarrow> replaces_nothing_in_use lib c \<Longrightarrow> consistent (step lib c)"
  by (cases c)
    (simp_all add: consistent_addBook consistent_registerMember consistent_borrowBook
      consistent_returnBook)

lemma consistent_run:
  "consistent lib \<Longrightarrow> careful lib cs \<Longrightarrow> consistent (run lib cs)"
  by (induction cs arbitrary: lib) (simp_all add: consistent_step)

lemma consistent_new_Library: "consistent (new_Library ns)"
  by (simp add: consistent_def new_Library_def holders_def findBook_def)

lemma consistent_bijection:
  assumes c: "consistent lib"
  shows "borrowed_available_bijection lib"
proof -
  have 1: "length (holders lib (book_id b)) = 1"
    if "(k, b) \<in> set (books lib)" and "\<not> available b" for k b
  proof -
    from c that have "book_id b = k" and "findBook lib k = Some b"
      by (auto simp: consistent_def findBook_def)
    with consistent_count [OF c, of k] that show ?thesis by simp
  qed
  have 2: "length (holders lib x) = 1 \<and>
      (case findBook lib x of None \<Rightarrow> False | Some b \<Rightarrow> \<not> available b)"
    if "(k, m) \<in> set (members lib)" and "x \<in> set (borrowedBookIds m)" for k m x
    using consistent_count [OF c, of x] holder_counted [OF that]
    by (auto split: option.splits if_splits)
  from 1 2 show ?thesis
    unfolding borrowed_available_bijection_def by blast
qed

subsection \<open>The borrowing limit\<close>

lemma within_limits_borrowBook:
  assumes w: "within_limits lib"
  shows "within_limits (snd (borrowBook lib memberId bookId))"
proof (cases "borrowBook lib memberId bookId")
  case (Pair r lib')
  show ?thesis
  proof (cases r)
    case False
    with Pair have "lib' = lib" by (simp add: borrowBook_FalseD)
    with Pair w show ?thesis by simp
  next
    case True
    with Pair have "borrowBook lib memberId bookId = (True, lib')" by simp
    then obtain m b where m: "findMember lib memberId = Some m" and cb: "canBorrow m"
      and lib': "lib' = lib\<lparr>books := AList.update bookId (b\<lparr>available := False\<rparr>) (books lib),
         members := AList.update memberId
           (m\<lparr>borrowedBookIds := borrowedBookIds m @ [bookId]\<rparr>) (members lib),
         notificationService := (notificationService lib)
           \<lparr>sentNotifications := sentNotifications (notificationService lib) @
              [(memberId, ''You have borrowed: '' @ title b)]\<rparr>\<rparr>"
      by (rule borrowBook_TrueD)
    have mem: "(memberId, m) \<in> set (members lib)"
      using m by (simp add: findMember_def map_of_SomeD)
    with w have three: "maxBooks m = 3" by (auto simp: within_limits_def)
    with cb have room: "length (borrowedBookIds m) < 3" by (simp add: canBorrow_default_limit)
    have "distinct (map fst (members lib'))"
      using w by (simp add: lib' within_limits_def distinct_update)
    moreover have "\<forall>(k, m) \<in> set (members lib').
        maxBooks m = 3 \<and> length (borrowedBookIds m) \<le> 3"
      using w three room by (auto simp: lib' within_limits_def dest!: in_set_updateD)
    ultimately show ?thesis using Pair by (simp add: within_limits_def)
  qed
qed

lemma within_limits_returnBook:
  assumes w: "within_limits lib"
  shows "within_limits (snd (returnBook lib memberId bookId))"
proof (cases "returnBook lib memberId bookId")
  case (Pair r lib')
  show ?thesis
  proof (cases r)
    case False
    with Pair have "lib' = lib" by (simp add: returnBook_FalseD)
    with Pair w show ?thesis by simp
  next
    case True
    with Pair have "returnBook lib memberId bookId = (True, lib')" by simp
    then obtain m b where m: "findMember lib memberId = Some m"
      and lib': "lib' = lib\<lparr>books := AList.update bookId (b\<lparr>available := True\<rparr>) (books lib),
         members := AList.update memberId
           (m\<lparr>borrowedBookIds := remove1 bookId (borrowedBookIds m)\<rparr>) (members lib),
         notificationService := (notificationService lib)
           \<lparr>sentNotifications := sentNotifications (notificationService lib) @
              [(memberId, ''You have returned: '' @ title b)]\<rparr>\<rparr>"
      by (rule returnBook_TrueD)
    have mem: "(memberId, m) \<in> set (members lib)"
      using m by (simp add: findMember_def map_of_SomeD)
    with w have three: "maxBooks m = 3" and le: "length (borrowedBookIds m) \<le> 3"
      by (auto simp: within_limits_def)
    have "length (remove1 bookId (borrowedBookIds m)) \<le> length (borrowedBookIds m)"
      by (simp add: length_remove1)
    with le have le': "length (remove1 bookId (borrowedBookIds m)) \<le> 3" by simp
    have "distinct (map fst (members lib'))"
      using w by (simp add: lib' within_limits_def distinct_update)
    moreover have "\<forall>(k, m) \<in> set (members lib').
        maxBooks m = 3 \<and> length (borrowedBookIds m) \<le> 3"
      using w three le' by (auto simp: lib' within_limits_def dest!: in_set_updateD)
    ultimately show ?thesis using Pair by (simp add: within_limits_def)
  qed
qed

lemma within_limits_addBook: "within_limits lib \<Longrightarrow> within_limits (addBook lib i t a)"
  by (simp add: within_limits_def addBook_def)

lemma within_limits_registerMember:
  "within_limits lib \<Longrightarrow> within_limits (registerMember lib i n)"
  by (auto simp: within_limits_def registerMember_def new_Member_def distinct_update
      dest!: in_set_updateD)

lemma within_limits_step: "within_limits lib \<Longrightarrow> within_limits (step lib c)"
  by (cases c)
    (simp_all add: within_limits_addBook within_limits_registerMember
      within_limits_borrowBook within_limits_returnBook)

lemma within_limits_run: "within_limits lib \<Longrightarrow> within_limits (run lib cs)"
  by (induction cs arbitrary: lib) (simp_all add: within_limits_step)

lemma within_limits_new_Library: "within_limits (new_Library ns)"
  by (simp add: within_limits_def new_Library_def)

text \<open>
  Every member found in a state reached from the empty library has limit 3, hence a
  limit that is not negative.
\<close>

lemma reachable_limit:
  assumes "findMember (run (new_Library ns) cs) k = Some m"
  shows "maxBooks m = 3" and "0 \<le> sint (maxBooks m)"
proof -
  have "within_limits (run (new_Library ns) cs)"
    by (intro within_limits_run within_limits_new_Library)
  moreover from assms have "(k, m) \<in> set (members (run (new_Library ns) cs))"
    by (simp add: findMember_def map_of_SomeD)
  ultimately show "maxBooks m = 3" by (auto simp: within_limits_def)
  then show "0 \<le> sint (maxBooks m)" by simp
qed

subsection \<open>Keys and ids\<close>

text \<open>In every state reached from the empty library, by whatever calls, keys are ids.\<close>

lemma keyed_by_id_step:
  assumes "keyed_by_id lib"
  shows "keyed_by_id (step lib c)"
proof (cases c)
  case (AddBook i t a)
  with assms show ?thesis
    by (auto simp: keyed_by_id_def addBook_def new_Book_def dest!: in_set_updateD)
next
  case (RegisterMember i n)
  with assms show ?thesis
    by (auto simp: keyed_by_id_def registerMember_def new_Member_def dest!: in_set_updateD)
next
  case (BorrowBook memberId bookId)
  show ?thesis
  proof (cases "borrowBook lib memberId bookId")
    case (Pair r lib')
    show ?thesis
    proof (cases r)
      case False
      with Pair have "lib' = lib" by (simp add: borrowBook_FalseD)
      with Pair BorrowBook assms show ?thesis by simp
    next
      case True
      with Pair have "borrowBook lib memberId bookId = (True, lib')" by simp
      then obtain m b where m: "findMember lib memberId = Some m"
        and b: "findBook lib bookId = Some b"
        and lib': "lib' = lib\<lparr>books := AList.update bookId (b\<lparr>available := False\<rparr>) (books lib),
           members := AList.update memberId
             (m\<lparr>borrowedBookIds := borrowedBookIds m @ [bookId]\<rparr>) (members lib),
           notificationService := (notificationService lib)
             \<lparr>sentNotifications := sentNotifications (notificationService lib) @
                [(memberId, ''You have borrowed: '' @ title b)]\<rparr>\<rparr>"
        by (rule borrowBook_TrueD)
      from m b have "(memberId, m) \<in> set (members lib)" "(bookId, b) \<in> set (books lib)"
        by (simp_all add: findMember_def findBook_def map_of_SomeD)
      with assms have "keyed_by_id lib'"
        by (auto simp: lib' keyed_by_id_def dest!: in_set_updateD)
      with Pair BorrowBook show ?thesis by simp
    qed
  qed
next
  case (ReturnBook memberId bookId)
  show ?thesis
  proof (cases "returnBook lib memberId bookId")
    case (Pair r lib')
    show ?thesis
    proof (cases r)
      case False
      with Pair have "lib' = lib" by (simp add: returnBook_FalseD)
      with Pair ReturnBook assms show ?thesis by simp
    next
      case True
      with Pair have "returnBook lib memberId bookId = (True, lib')" by simp
      then obtain m b where m: "findMember lib memberId = Some m"
        and b: "findBook lib bookId = Some b"
        and lib': "lib' = lib\<lparr>books := AList.update bookId (b\<lparr>available := True\<rparr>) (books lib),
           members := AList.update memberId
             (m\<lparr>borrowedBookIds := remove1 bookId (borrowedBookIds m)\<rparr>) (members lib),
           notificationService := (notificationService lib)
             \<lparr>sentNotifications := sentNotifications (notificationService lib) @
                [(memberId, ''You have returned: '' @ title b)]\<rparr>\<rparr>"
        by (rule returnBook_TrueD)
      from m b have "(memberId, m) \<in> set (members lib)" "(bookId, b) \<in> set (books lib)"
        by (simp_all add: findMember_def findBook_def map_of_SomeD)
      with assms have "keyed_by_id lib'"
        by (auto simp: lib' keyed_by_id_def dest!: in_set_updateD)
      with Pair ReturnBook show ?thesis by simp
    qed
  qed
qed

lemma keyed_by_id_run: "keyed_by_id lib \<Longrightarrow> keyed_by_id (run lib cs)"
  by (induction cs arbitrary: lib) (simp_all add: keyed_by_id_step)

lemma keyed_by_id_reachable: "keyed_by_id (run (new_Library ns) cs)"
  by (rule keyed_by_id_run) (simp add: keyed_by_id_def new_Library_def)

section \<open>The claims\<close>

text \<open>
  C1. For every library state and every \<^verbatim>\<open>memberId\<close> and \<^verbatim>\<open>bookId\<close>:
  \<^verbatim>\<open>borrowBook\<close> returns false and leaves every book, every member and the record
  of notifications as they were when the member is absent, the book is absent, the book
  is unavailable or the member is at capacity; otherwise it returns true, the book
  found under \<^verbatim>\<open>bookId\<close> is the old one with \<^verbatim>\<open>available\<close> false, the member found
  under \<^verbatim>\<open>memberId\<close> is the old one with \<^verbatim>\<open>bookId\<close> appended to the borrowed
  sequence, and the record of notifications has grown by exactly one entry, addressed
  to \<^verbatim>\<open>memberId\<close> with the message \<^verbatim>\<open>"You have borrowed: "\<close> followed by the title.

  Capacity is the comparison of the two numbers, as the specification words it. The
  code compares after converting the limit to \<^verbatim>\<open>size_t\<close>, which agrees for every limit
  that is not negative; the premise says that the member addressed has such a limit,
  which holds for every member the library stores, since \<^const>\<open>registerMember\<close> builds
  each of them with limit 3.
\<close>

theorem borrowBook_outcome:
  assumes limit: "\<And>m. findMember lib memberId = Some m \<Longrightarrow> 0 \<le> sint (maxBooks m)"
  shows "if borrow_rejected lib memberId bookId
         then borrowBook lib memberId bookId = (False, lib)
         else \<exists>m b lib'.
                findMember lib memberId = Some m \<and> findBook lib bookId = Some b \<and>
                borrowBook lib memberId bookId = (True, lib') \<and>
                findBook lib' bookId = Some (b\<lparr>available := False\<rparr>) \<and>
                findMember lib' memberId =
                  Some (m\<lparr>borrowedBookIds := borrowedBookIds m @ [bookId]\<rparr>) \<and>
                sentNotifications (notificationService lib') =
                  sentNotifications (notificationService lib) @
                    [(memberId, ''You have borrowed: '' @ title b)]"
proof (cases "borrow_rejected lib memberId bookId")
  case True
  then have "findMember lib memberId = None \<or> findBook lib bookId = None \<or>
    (\<exists>b. findBook lib bookId = Some b \<and> \<not> available b) \<or>
    (\<exists>m. findMember lib memberId = Some m \<and> \<not> canBorrow m)"
    using limit by (auto simp: borrow_rejected_def at_capacity_def canBorrow_nonneg)
  then show ?thesis using True by (simp add: borrowBook_failure)
next
  case False
  then obtain m b where m: "findMember lib memberId = Some m"
    and b: "findBook lib bookId = Some b" and av: "available b"
    and cap: "\<not> at_capacity m"
    by (auto simp: borrow_rejected_def)
  from cap limit [OF m] have "canBorrow m"
    by (simp add: at_capacity_def canBorrow_nonneg)
  note eq = borrowBook_success [OF m b av this]
  show ?thesis using False m b
    by (simp add: eq findBook_update findMember_update)
qed

text \<open>
  The theorem at the fixture: Alice borrows \<^verbatim>\<open>B001\<close>; then Bob, who is registered and
  below his limit, is rejected because the book is unavailable.
\<close>

theorem borrowBook_outcome_witness:
  "borrowBook SetUp ''M001'' ''B001'' = (True, alice_holds_B001) \<and>
   borrow_rejected alice_holds_B001 ''M002'' ''B001'' \<and>
   borrowBook alice_holds_B001 ''M002'' ''B001'' = (False, alice_holds_B001)"
proof -
  have 1: "\<And>m. findMember SetUp ''M001'' = Some m \<Longrightarrow> 0 \<le> sint (maxBooks m)"
    by (auto simp: SetUp_eq findMember_def)
  have 2: "\<And>m. findMember alice_holds_B001 ''M002'' = Some m \<Longrightarrow> 0 \<le> sint (maxBooks m)"
    by (auto simp: alice_holds_B001_eq findMember_def)
  have 3: "\<not> borrow_rejected SetUp ''M001'' ''B001''"
    by (simp add: borrow_rejected_def at_capacity_def SetUp_eq findMember_def findBook_def)
  have 4: "borrow_rejected alice_holds_B001 ''M002'' ''B001''"
    by (simp add: borrow_rejected_def alice_holds_B001_eq findMember_def findBook_def)
  from borrowBook_outcome [of SetUp "''M001''" "''B001''", OF 1] 3
  have "fst (borrowBook SetUp ''M001'' ''B001'')" by auto
  then have "borrowBook SetUp ''M001'' ''B001'' = (True, alice_holds_B001)"
    by (simp add: alice_holds_B001_def prod_eq_iff)
  moreover from borrowBook_outcome [of alice_holds_B001 "''M002''" "''B001''", OF 2] 4
  have "borrowBook alice_holds_B001 ''M002'' ''B001'' = (False, alice_holds_B001)" by simp
  ultimately show ?thesis using 4 by simp
qed

text \<open>
  C2. For every library state and every \<^verbatim>\<open>memberId\<close> and \<^verbatim>\<open>bookId\<close>:
  \<^verbatim>\<open>returnBook\<close> returns false and changes nothing when the member is absent, the
  book is absent or \<^verbatim>\<open>bookId\<close> is not in that member's borrowed sequence, whoever else
  may hold it; otherwise it returns true, the book found under \<^verbatim>\<open>bookId\<close> is the old
  one with \<^verbatim>\<open>available\<close> true, the member found under \<^verbatim>\<open>memberId\<close> is the old one
  with the first occurrence of \<^verbatim>\<open>bookId\<close> removed from the borrowed sequence (the only
  occurrence when the sequence has unique elements, as the data model says), and the
  record of notifications has grown by exactly one entry, addressed to \<^verbatim>\<open>memberId\<close>
  with the message \<^verbatim>\<open>"You have returned: "\<close> followed by the title.
\<close>

theorem returnBook_outcome:
  "if return_rejected lib memberId bookId
   then returnBook lib memberId bookId = (False, lib)
   else \<exists>m b lib'.
          findMember lib memberId = Some m \<and> findBook lib bookId = Some b \<and>
          returnBook lib memberId bookId = (True, lib') \<and>
          findBook lib' bookId = Some (b\<lparr>available := True\<rparr>) \<and>
          findMember lib' memberId =
            Some (m\<lparr>borrowedBookIds := remove1 bookId (borrowedBookIds m)\<rparr>) \<and>
          sentNotifications (notificationService lib') =
            sentNotifications (notificationService lib) @
              [(memberId, ''You have returned: '' @ title b)]"
proof (cases "return_rejected lib memberId bookId")
  case True
  then show ?thesis by (simp add: returnBook_failure return_rejected_def)
next
  case False
  then obtain m b where m: "findMember lib memberId = Some m"
    and b: "findBook lib bookId = Some b" and held: "bookId \<in> set (borrowedBookIds m)"
    by (auto simp: return_rejected_def)
  note eq = returnBook_success [OF m b held]
  show ?thesis using False m b
    by (simp add: eq findBook_update findMember_update)
qed

text \<open>
  The theorem where Alice holds \<^verbatim>\<open>B001\<close>: Bob cannot return it, Alice can.
\<close>

theorem returnBook_outcome_witness:
  "returnBook alice_holds_B001 ''M002'' ''B001'' = (False, alice_holds_B001) \<and>
   fst (returnBook alice_holds_B001 ''M001'' ''B001'') \<and>
   findBook (snd (returnBook alice_holds_B001 ''M001'' ''B001'')) ''B001'' =
     Some \<lparr>book_id = ''B001'', title = ''Clean Code'', author = ''Robert Martin'',
       available = True\<rparr> \<and>
   findMember (snd (returnBook alice_holds_B001 ''M001'' ''B001'')) ''M001'' =
     Some \<lparr>member_id = ''M001'', name = ''Alice'', borrowedBookIds = [], maxBooks = 3\<rparr> \<and>
   sentNotifications (notificationService (snd (returnBook alice_holds_B001 ''M001'' ''B001''))) =
     [(''M001'', ''You have borrowed: Clean Code''), (''M001'', ''You have returned: Clean Code'')]"
proof -
  have 1: "return_rejected alice_holds_B001 ''M002'' ''B001''"
    by (simp add: return_rejected_def alice_holds_B001_eq findMember_def findBook_def)
  have 2: "\<not> return_rejected alice_holds_B001 ''M001'' ''B001''"
    by (simp add: return_rejected_def alice_holds_B001_eq findMember_def findBook_def)
  have m: "findMember alice_holds_B001 ''M001'' =
      Some \<lparr>member_id = ''M001'', name = ''Alice'', borrowedBookIds = [''B001''], maxBooks = 3\<rparr>"
    by (simp add: alice_holds_B001_eq findMember_def)
  have b: "findBook alice_holds_B001 ''B001'' =
      Some \<lparr>book_id = ''B001'', title = ''Clean Code'', author = ''Robert Martin'',
        available = False\<rparr>"
    by (simp add: alice_holds_B001_eq findBook_def)
  have n: "sentNotifications (notificationService alice_holds_B001) =
      [(''M001'', ''You have borrowed: Clean Code'')]"
    by (simp add: alice_holds_B001_eq)
  from returnBook_outcome [of alice_holds_B001 "''M002''" "''B001''"] 1
  have "returnBook alice_holds_B001 ''M002'' ''B001'' = (False, alice_holds_B001)"
    by simp
  moreover from returnBook_outcome [of alice_holds_B001 "''M001''" "''B001''"] 2 m b n
  have "fst (returnBook alice_holds_B001 ''M001'' ''B001'') \<and>
   findBook (snd (returnBook alice_holds_B001 ''M001'' ''B001'')) ''B001'' =
     Some \<lparr>book_id = ''B001'', title = ''Clean Code'', author = ''Robert Martin'',
       available = True\<rparr> \<and>
   findMember (snd (returnBook alice_holds_B001 ''M001'' ''B001'')) ''M001'' =
     Some \<lparr>member_id = ''M001'', name = ''Alice'', borrowedBookIds = [], maxBooks = 3\<rparr> \<and>
   sentNotifications (notificationService (snd (returnBook alice_holds_B001 ''M001'' ''B001''))) =
     [(''M001'', ''You have borrowed: Clean Code''), (''M001'', ''You have returned: Clean Code'')]"
    by auto
  ultimately show ?thesis by simp
qed

text \<open>
  C3. Every call of \<^verbatim>\<open>borrowBook\<close> and of \<^verbatim>\<open>returnBook\<close> is atomic: either it
  returns false and the state after it (every book, every member and the record of
  notifications) is the state before it, or it returns true and both mutations and
  exactly one notification are there. Neither function has a way to fail: each is a
  total function into a boolean and a state.
\<close>

theorem calls_atomic:
  "(borrowBook lib memberId bookId = (False, lib) \<or>
    (\<exists>m b lib'.
       findMember lib memberId = Some m \<and> findBook lib bookId = Some b \<and>
       borrowBook lib memberId bookId = (True, lib') \<and>
       findBook lib' bookId = Some (b\<lparr>available := False\<rparr>) \<and>
       findMember lib' memberId =
         Some (m\<lparr>borrowedBookIds := borrowedBookIds m @ [bookId]\<rparr>) \<and>
       sentNotifications (notificationService lib') =
         sentNotifications (notificationService lib) @
           [(memberId, ''You have borrowed: '' @ title b)])) \<and>
   (returnBook lib memberId bookId = (False, lib) \<or>
    (\<exists>m b lib'.
       findMember lib memberId = Some m \<and> findBook lib bookId = Some b \<and>
       returnBook lib memberId bookId = (True, lib') \<and>
       findBook lib' bookId = Some (b\<lparr>available := True\<rparr>) \<and>
       findMember lib' memberId =
         Some (m\<lparr>borrowedBookIds := remove1 bookId (borrowedBookIds m)\<rparr>) \<and>
       sentNotifications (notificationService lib') =
         sentNotifications (notificationService lib) @
           [(memberId, ''You have returned: '' @ title b)]))"
proof
  show "borrowBook lib memberId bookId = (False, lib) \<or>
    (\<exists>m b lib'.
       findMember lib memberId = Some m \<and> findBook lib bookId = Some b \<and>
       borrowBook lib memberId bookId = (True, lib') \<and>
       findBook lib' bookId = Some (b\<lparr>available := False\<rparr>) \<and>
       findMember lib' memberId =
         Some (m\<lparr>borrowedBookIds := borrowedBookIds m @ [bookId]\<rparr>) \<and>
       sentNotifications (notificationService lib') =
         sentNotifications (notificationService lib) @
           [(memberId, ''You have borrowed: '' @ title b)])"
  proof (cases "\<exists>m b. findMember lib memberId = Some m \<and> findBook lib bookId = Some b \<and>
      available b \<and> canBorrow m")
    case True
    then obtain m b where m: "findMember lib memberId = Some m"
      and b: "findBook lib bookId = Some b" and av: "available b" and cb: "canBorrow m"
      by blast
    show ?thesis
      using m b by (simp add: borrowBook_success [OF m b av cb] findBook_update findMember_update)
  next
    case False
    then have "findMember lib memberId = None \<or> findBook lib bookId = None \<or>
      (\<exists>b. findBook lib bookId = Some b \<and> \<not> available b) \<or>
      (\<exists>m. findMember lib memberId = Some m \<and> \<not> canBorrow m)"
      by (cases "findMember lib memberId"; cases "findBook lib bookId") auto
    then show ?thesis by (simp add: borrowBook_failure)
  qed
next
  show "returnBook lib memberId bookId = (False, lib) \<or>
    (\<exists>m b lib'.
       findMember lib memberId = Some m \<and> findBook lib bookId = Some b \<and>
       returnBook lib memberId bookId = (True, lib') \<and>
       findBook lib' bookId = Some (b\<lparr>available := True\<rparr>) \<and>
       findMember lib' memberId =
         Some (m\<lparr>borrowedBookIds := remove1 bookId (borrowedBookIds m)\<rparr>) \<and>
       sentNotifications (notificationService lib') =
         sentNotifications (notificationService lib) @
           [(memberId, ''You have returned: '' @ title b)])"
  proof (cases "\<exists>m b. findMember lib memberId = Some m \<and> findBook lib bookId = Some b \<and>
      bookId \<in> set (borrowedBookIds m)")
    case True
    then obtain m b where m: "findMember lib memberId = Some m"
      and b: "findBook lib bookId = Some b" and held: "bookId \<in> set (borrowedBookIds m)"
      by blast
    show ?thesis
      using m b by (simp add: returnBook_success [OF m b held] findBook_update findMember_update)
  next
    case False
    then have "findMember lib memberId = None \<or> findBook lib bookId = None \<or>
      (\<exists>m. findMember lib memberId = Some m \<and> bookId \<notin> set (borrowedBookIds m))"
      by (cases "findMember lib memberId"; cases "findBook lib bookId") auto
    then show ?thesis by (simp add: returnBook_failure)
  qed
qed

text \<open>Both disjuncts occur, for both functions.\<close>

theorem calls_atomic_witness:
  "borrowBook SetUp ''M001'' ''B001'' = (True, alice_holds_B001) \<and>
   borrowBook alice_holds_B001 ''M002'' ''B001'' = (False, alice_holds_B001) \<and>
   returnBook alice_holds_B001 ''M002'' ''B001'' = (False, alice_holds_B001) \<and>
   fst (returnBook alice_holds_B001 ''M001'' ''B001'')"
proof -
  have 1: "borrowBook SetUp ''M001'' ''B001'' \<noteq> (False, SetUp)"
    by (simp add: SetUp_eq borrowBook_def findMember_def findBook_def isAvailable_def
        canBorrow_def Let_def)
  have 2: "\<not> fst (borrowBook alice_holds_B001 ''M002'' ''B001'')"
    by (simp add: alice_holds_B001_eq borrowBook_def findMember_def findBook_def
        isAvailable_def)
  have 3: "\<not> fst (returnBook alice_holds_B001 ''M002'' ''B001'')"
    by (simp add: alice_holds_B001_eq returnBook_def findMember_def findBook_def
        hasBorrowedBook_def)
  have 4: "returnBook alice_holds_B001 ''M001'' ''B001'' \<noteq> (False, alice_holds_B001)"
    by (simp add: alice_holds_B001_eq returnBook_def findMember_def findBook_def
        hasBorrowedBook_def Let_def)
  from calls_atomic [of SetUp "''M001''" "''B001''"] 1
  have "fst (borrowBook SetUp ''M001'' ''B001'')" by auto
  then have a: "borrowBook SetUp ''M001'' ''B001'' = (True, alice_holds_B001)"
    by (simp add: alice_holds_B001_def prod_eq_iff)
  from calls_atomic [of alice_holds_B001 "''M002''" "''B001''"] 2 3
  have b: "borrowBook alice_holds_B001 ''M002'' ''B001'' = (False, alice_holds_B001) \<and>
    returnBook alice_holds_B001 ''M002'' ''B001'' = (False, alice_holds_B001)"
    by auto
  from calls_atomic [of alice_holds_B001 "''M001''" "''B001''"] 4
  have c: "fst (returnBook alice_holds_B001 ''M001'' ''B001'')" by auto
  from a b c show ?thesis by simp
qed

text \<open>
  C4. The claim is that the bijection between unavailable books and the ids members
  hold is true of every state reached from the empty library by calls of \<^verbatim>\<open>addBook\<close>,
  \<^verbatim>\<open>registerMember\<close>, \<^verbatim>\<open>borrowBook\<close> and \<^verbatim>\<open>returnBook\<close>. As stated it fails:
  adding \<^verbatim>\<open>B001\<close> again while Alice holds it leaves her holding the id of a book that
  is available.
\<close>

theorem bijection_counterexample:
  "\<not> borrowed_available_bijection
       (run (new_Library \<lparr>sentNotifications = []\<rparr>) replaced_while_borrowed)"
  unfolding replaced_while_borrowed_run
  by (simp add: borrowed_available_bijection_def findBook_def)

text \<open>
  C4, amended. The bijection is true of every state reached from the empty library by a
  careful sequence of calls: one in which no \<^verbatim>\<open>addBook\<close> overwrites a book that is
  unavailable at that moment and no \<^verbatim>\<open>registerMember\<close> overwrites a member who holds
  a book at that moment. In particular it holds when every \<^verbatim>\<open>addBook\<close> and
  \<^verbatim>\<open>registerMember\<close> uses a new id.
\<close>

theorem bijection_maintained:
  assumes "careful (new_Library ns) cs"
  shows "borrowed_available_bijection (run (new_Library ns) cs)"
  using assms by (intro consistent_bijection consistent_run consistent_new_Library)

text \<open>
  A careful sequence that borrows, returns, and then overwrites the returned book and the
  member who returned it.
\<close>

theorem bijection_maintained_witness:
  "careful (new_Library \<lparr>sentNotifications = []\<rparr>) borrow_return_add \<and>
   borrowed_available_bijection
     (run (new_Library \<lparr>sentNotifications = []\<rparr>) borrow_return_add)"
  using bijection_maintained [OF borrow_return_add_careful] borrow_return_add_careful
  by simp

text \<open>
  C5. In every state reached from the empty library by any sequence of calls, every
  member's borrowed sequence is at most as long as that member's limit; and for a
  member whose borrowed sequence is exactly as long as the limit, every \<^verbatim>\<open>borrowBook\<close>
  naming that member returns false, whatever book it names.
\<close>

theorem limit_respected:
  "\<forall>(k, m) \<in> set (members (run (new_Library ns) cs)).
     int (length (borrowedBookIds m)) \<le> sint (maxBooks m) \<and>
     (int (length (borrowedBookIds m)) = sint (maxBooks m) \<longrightarrow>
        (\<forall>bookId. fst (borrowBook (run (new_Library ns) cs) k bookId) = False))"
proof (intro ballI, clarify)
  fix k m
  let ?lib = "run (new_Library ns) cs"
  assume mem: "(k, m) \<in> set (members ?lib)"
  have w: "within_limits ?lib"
    by (intro within_limits_run within_limits_new_Library)
  with mem have three: "maxBooks m = 3" and le: "length (borrowedBookIds m) \<le> 3"
    by (auto simp: within_limits_def)
  from w mem have found: "findMember ?lib k = Some m"
    by (simp add: within_limits_def findMember_def)
  have "fst (borrowBook ?lib k bookId) = False"
    if "int (length (borrowedBookIds m)) = sint (maxBooks m)" for bookId
  proof -
    from that three have "\<not> canBorrow m" by (simp add: canBorrow_default_limit)
    with found have "borrowBook ?lib k bookId = (False, ?lib)"
      by (intro borrowBook_failure) simp
    then show ?thesis by simp
  qed
  with three le
  show "int (length (borrowedBookIds m)) \<le> sint (maxBooks m) \<and>
     (int (length (borrowedBookIds m)) = sint (maxBooks m) \<longrightarrow>
        (\<forall>bookId. fst (borrowBook ?lib k bookId) = False))"
    by simp
qed

text \<open>
  Alice holds three books; a fourth, available one is added; she cannot borrow it.
\<close>

theorem limit_respected_witness:
  "map_option available
     (findBook (run (new_Library \<lparr>sentNotifications = []\<rparr>) alice_at_limit) ''B004'') =
     Some True \<and>
   fst (borrowBook (run (new_Library \<lparr>sentNotifications = []\<rparr>) alice_at_limit)
     ''M001'' ''B004'') = False"
proof -
  let ?lib = "run (new_Library \<lparr>sentNotifications = []\<rparr>) alice_at_limit"
  let ?alice = "\<lparr>member_id = ''M001'', name = ''Alice'',
    borrowedBookIds = [''B001'', ''B002'', ''B003''], maxBooks = 3\<rparr>"
  have mem: "(''M001'', ?alice) \<in> set (members ?lib)"
    by (simp add: alice_at_limit_run)
  have full: "int (length (borrowedBookIds ?alice)) = sint (maxBooks ?alice)"
    by simp
  from limit_respected [of "\<lparr>sentNotifications = []\<rparr>" alice_at_limit] mem
  have "int (length (borrowedBookIds ?alice)) = sint (maxBooks ?alice) \<longrightarrow>
     (\<forall>bookId. fst (borrowBook ?lib ''M001'' bookId) = False)"
    by blast
  with full have "fst (borrowBook ?lib ''M001'' ''B004'') = False" by blast
  moreover have "map_option available (findBook ?lib ''B004'') = Some True"
    by (simp add: alice_at_limit_run findBook_def)
  ultimately show ?thesis by simp
qed

text \<open>
  C6. For every library state and every id, title and author: after \<^verbatim>\<open>addBook\<close> the
  lookup of the id yields a book with that id, title and author that is available,
  whatever was stored under the id before, an unavailable book included.
\<close>

theorem addBook_findBook:
  "findBook (addBook lib i t a) i =
     Some \<lparr>book_id = i, title = t, author = a, available = True\<rparr>"
  by (simp add: findBook_def addBook_def new_Book_def update_conv')

text \<open>
  C7. \<^verbatim>\<open>findBook\<close> yields the null pointer exactly when no book is stored under the
  id and otherwise yields a stored record of that id; likewise \<^verbatim>\<open>findMember\<close>.
  Both are total: there is no third outcome.
\<close>

theorem lookups_total:
  "(findBook lib i = None \<longleftrightarrow> i \<notin> fst ` set (books lib)) \<and>
   (\<forall>b. findBook lib i = Some b \<longrightarrow> (i, b) \<in> set (books lib)) \<and>
   (findMember lib i = None \<longleftrightarrow> i \<notin> fst ` set (members lib)) \<and>
   (\<forall>m. findMember lib i = Some m \<longrightarrow> (i, m) \<in> set (members lib))"
  by (simp add: findBook_def findMember_def map_of_eq_None_iff map_of_SomeD)

text \<open>The fixture's lookups: \<^verbatim>\<open>INVALID\<close> is absent from both maps, \<^verbatim>\<open>B001\<close> and \<^verbatim>\<open>M001\<close> are found.\<close>

theorem lookups_total_witness:
  "findBook SetUp ''INVALID'' = None \<and> ''INVALID'' \<notin> fst ` set (books SetUp) \<and>
   findMember SetUp ''INVALID'' = None \<and> ''INVALID'' \<notin> fst ` set (members SetUp) \<and>
   findBook SetUp ''B001'' =
     Some \<lparr>book_id = ''B001'', title = ''Clean Code'', author = ''Robert Martin'',
       available = True\<rparr> \<and>
   (''B001'', \<lparr>book_id = ''B001'', title = ''Clean Code'', author = ''Robert Martin'',
       available = True\<rparr>) \<in> set (books SetUp) \<and>
   findMember SetUp ''M001'' =
     Some \<lparr>member_id = ''M001'', name = ''Alice'', borrowedBookIds = [], maxBooks = 3\<rparr> \<and>
   (''M001'', \<lparr>member_id = ''M001'', name = ''Alice'', borrowedBookIds = [], maxBooks = 3\<rparr>)
     \<in> set (members SetUp)"
proof -
  have 1: "findBook SetUp ''INVALID'' = None" "findMember SetUp ''INVALID'' = None"
    by (simp_all add: SetUp_eq findBook_def findMember_def)
  have 2: "findBook SetUp ''B001'' =
     Some \<lparr>book_id = ''B001'', title = ''Clean Code'', author = ''Robert Martin'',
       available = True\<rparr>"
    "findMember SetUp ''M001'' =
     Some \<lparr>member_id = ''M001'', name = ''Alice'', borrowedBookIds = [], maxBooks = 3\<rparr>"
    by (simp_all add: SetUp_eq findBook_def findMember_def)
  show ?thesis
    using lookups_total [of SetUp "''INVALID''"] lookups_total [of SetUp "''B001''"]
      lookups_total [of SetUp "''M001''"] 1 2
    by blast
qed

text \<open>
  C8. The scenario on the fixture (\<^verbatim>\<open>B001\<close> titled ``Clean Code'', \<^verbatim>\<open>B002\<close>, \<^verbatim>\<open>B003\<close>,
  \<^verbatim>\<open>M001\<close> with limit 3, and \<^verbatim>\<open>M002\<close>): Alice's \<^verbatim>\<open>borrowBook\<close> of \<^verbatim>\<open>B001\<close> returns
  true, after which \<^verbatim>\<open>B001\<close> is unavailable and the service has recorded exactly
  \<^verbatim>\<open>("M001", "You have borrowed: Clean Code")\<close>; Bob's \<^verbatim>\<open>borrowBook\<close> of \<^verbatim>\<open>B001\<close>
  then returns false and leaves the state, the record of notifications included, as it
  was; Alice's \<^verbatim>\<open>returnBook\<close> then returns true and \<^verbatim>\<open>B001\<close> is available again.
\<close>

theorem fixture_scenario:
  "fst (borrowBook SetUp ''M001'' ''B001'') = True \<and>
   map_option available (findBook alice_holds_B001 ''B001'') = Some False \<and>
   sentNotifications (notificationService alice_holds_B001) =
     [(''M001'', ''You have borrowed: Clean Code'')] \<and>
   borrowBook alice_holds_B001 ''M002'' ''B001'' = (False, alice_holds_B001) \<and>
   fst (returnBook alice_holds_B001 ''M001'' ''B001'') = True \<and>
   map_option available
     (findBook (snd (returnBook alice_holds_B001 ''M001'' ''B001'')) ''B001'') = Some True"
proof -
  have "fst (borrowBook SetUp ''M001'' ''B001'') = True"
    by (simp add: SetUp_eq borrowBook_def findMember_def findBook_def isAvailable_def
        canBorrow_def Let_def)
  moreover have "map_option available (findBook alice_holds_B001 ''B001'') = Some False"
    by (simp add: alice_holds_B001_eq findBook_def)
  moreover have "sentNotifications (notificationService alice_holds_B001) =
     [(''M001'', ''You have borrowed: Clean Code'')]"
    by (simp add: alice_holds_B001_eq)
  moreover have "borrowBook alice_holds_B001 ''M002'' ''B001'' = (False, alice_holds_B001)"
  proof (rule borrowBook_failure)
    have "findBook alice_holds_B001 ''B001'' =
        Some \<lparr>book_id = ''B001'', title = ''Clean Code'', author = ''Robert Martin'',
          available = False\<rparr>"
      by (simp add: alice_holds_B001_eq findBook_def)
    then show "findMember alice_holds_B001 ''M002'' = None \<or>
      findBook alice_holds_B001 ''B001'' = None \<or>
      (\<exists>b. findBook alice_holds_B001 ''B001'' = Some b \<and> \<not> available b) \<or>
      (\<exists>m. findMember alice_holds_B001 ''M002'' = Some m \<and> \<not> canBorrow m)"
      by simp
  qed
  moreover have "fst (returnBook alice_holds_B001 ''M001'' ''B001'') = True \<and>
   map_option available
     (findBook (snd (returnBook alice_holds_B001 ''M001'' ''B001'')) ''B001'') = Some True"
    by (simp add: alice_holds_B001_eq returnBook_def findMember_def findBook_def
        hasBorrowedBook_def markReturned_def Let_def)
  ultimately show ?thesis by simp
qed

text \<open>
  C9. For every successful \<^verbatim>\<open>borrowBook\<close> or \<^verbatim>\<open>returnBook\<close>: every lookup of another
  book id and of another member id gives what it gave before, both maps keep their keys,
  the book under \<^verbatim>\<open>bookId\<close> keeps its id, title and author, the member under
  \<^verbatim>\<open>memberId\<close> keeps its id, name and limit, and the record of notifications is the
  old one with one entry appended.
\<close>

theorem success_frame:
  assumes "borrowBook lib memberId bookId = (True, lib') \<or>
    returnBook lib memberId bookId = (True, lib')"
  shows "(\<forall>k. k \<noteq> bookId \<longrightarrow> findBook lib' k = findBook lib k) \<and>
    (\<forall>k. k \<noteq> memberId \<longrightarrow> findMember lib' k = findMember lib k) \<and>
    map fst (books lib') = map fst (books lib) \<and>
    map fst (members lib') = map fst (members lib) \<and>
    (\<exists>b b'. findBook lib bookId = Some b \<and> findBook lib' bookId = Some b' \<and>
       book_id b' = book_id b \<and> title b' = title b \<and> author b' = author b) \<and>
    (\<exists>m m'. findMember lib memberId = Some m \<and> findMember lib' memberId = Some m' \<and>
       member_id m' = member_id m \<and> name m' = name m \<and> maxBooks m' = maxBooks m) \<and>
    (\<exists>r. sentNotifications (notificationService lib') =
       sentNotifications (notificationService lib) @ [r])"
  using assms
proof
  assume "borrowBook lib memberId bookId = (True, lib')"
  then obtain m b where m: "findMember lib memberId = Some m"
    and b: "findBook lib bookId = Some b"
    and lib': "lib' = lib\<lparr>books := AList.update bookId (b\<lparr>available := False\<rparr>) (books lib),
         members := AList.update memberId
           (m\<lparr>borrowedBookIds := borrowedBookIds m @ [bookId]\<rparr>) (members lib),
         notificationService := (notificationService lib)
           \<lparr>sentNotifications := sentNotifications (notificationService lib) @
              [(memberId, ''You have borrowed: '' @ title b)]\<rparr>\<rparr>"
    by (rule borrowBook_TrueD)
  have "map fst (books lib') = map fst (books lib)"
    "map fst (members lib') = map fst (members lib)"
    using m b by (simp_all add: lib' update_present_keys findBook_def findMember_def)
  then show ?thesis
    using m b by (simp add: lib' findBook_update findMember_update)
next
  assume "returnBook lib memberId bookId = (True, lib')"
  then obtain m b where m: "findMember lib memberId = Some m"
    and b: "findBook lib bookId = Some b"
    and lib': "lib' = lib\<lparr>books := AList.update bookId (b\<lparr>available := True\<rparr>) (books lib),
         members := AList.update memberId
           (m\<lparr>borrowedBookIds := remove1 bookId (borrowedBookIds m)\<rparr>) (members lib),
         notificationService := (notificationService lib)
           \<lparr>sentNotifications := sentNotifications (notificationService lib) @
              [(memberId, ''You have returned: '' @ title b)]\<rparr>\<rparr>"
    by (rule returnBook_TrueD)
  have "map fst (books lib') = map fst (books lib)"
    "map fst (members lib') = map fst (members lib)"
    using m b by (simp_all add: lib' update_present_keys findBook_def findMember_def)
  then show ?thesis
    using m b by (simp add: lib' findBook_update findMember_update)
qed

text \<open>Alice's first borrow on the fixture: the other books and Bob are untouched.\<close>

theorem success_frame_witness:
  "borrowBook SetUp ''M001'' ''B001'' = (True, alice_holds_B001) \<and>
   findBook alice_holds_B001 ''B002'' = findBook SetUp ''B002'' \<and>
   findBook alice_holds_B001 ''B003'' = findBook SetUp ''B003'' \<and>
   findMember alice_holds_B001 ''M002'' = findMember SetUp ''M002'' \<and>
   map fst (books alice_holds_B001) = map fst (books SetUp) \<and>
   map fst (members alice_holds_B001) = map fst (members SetUp) \<and>
   length (sentNotifications (notificationService alice_holds_B001)) =
     Suc (length (sentNotifications (notificationService SetUp)))"
proof -
  have a: "borrowBook SetUp ''M001'' ''B001'' = (True, alice_holds_B001)"
    by (simp add: alice_holds_B001_def prod_eq_iff)
      (simp add: SetUp_eq borrowBook_def findMember_def findBook_def isAvailable_def
        canBorrow_def Let_def)
  from success_frame [of SetUp "''M001''" "''B001''" alice_holds_B001] a
  have "(\<forall>k. k \<noteq> ''B001'' \<longrightarrow> findBook alice_holds_B001 k = findBook SetUp k) \<and>
    (\<forall>k. k \<noteq> ''M001'' \<longrightarrow> findMember alice_holds_B001 k = findMember SetUp k) \<and>
    map fst (books alice_holds_B001) = map fst (books SetUp) \<and>
    map fst (members alice_holds_B001) = map fst (members SetUp) \<and>
    (\<exists>r. sentNotifications (notificationService alice_holds_B001) =
       sentNotifications (notificationService SetUp) @ [r])"
    by blast
  then show ?thesis using a by auto
qed

text \<open>
  C10. \<^verbatim>\<open>returnBook\<close> never looks at the book's availability: whenever the member
  exists, the book exists and the id is in the member's borrowed sequence, it returns
  true and sends the notification, also when the book is already available.
\<close>

theorem returnBook_ignores_availability:
  assumes "findMember lib memberId = Some m" and "findBook lib bookId = Some b"
    and "bookId \<in> set (borrowedBookIds m)"
  shows "fst (returnBook lib memberId bookId) = True \<and>
    sentNotifications (notificationService (snd (returnBook lib memberId bookId))) =
      sentNotifications (notificationService lib) @
        [(memberId, ''You have returned: '' @ title b)]"
  by (simp add: returnBook_success [OF assms])

text \<open>
  After \<^verbatim>\<open>B001\<close> was added again it is available while Alice still holds its id; her
  return succeeds and is notified.
\<close>

theorem returnBook_ignores_availability_witness:
  "findBook B001_added_again ''B001'' =
     Some \<lparr>book_id = ''B001'', title = ''Clean Code'', author = ''Robert Martin'',
       available = True\<rparr> \<and>
   fst (returnBook B001_added_again ''M001'' ''B001'') = True \<and>
   sentNotifications (notificationService (snd (returnBook B001_added_again ''M001'' ''B001''))) =
     [(''M001'', ''You have borrowed: Clean Code''), (''M001'', ''You have returned: Clean Code'')]"
proof -
  have m: "findMember B001_added_again ''M001'' =
      Some \<lparr>member_id = ''M001'', name = ''Alice'', borrowedBookIds = [''B001''], maxBooks = 3\<rparr>"
    by (simp add: B001_added_again_eq findMember_def)
  have b: "findBook B001_added_again ''B001'' =
      Some \<lparr>book_id = ''B001'', title = ''Clean Code'', author = ''Robert Martin'',
        available = True\<rparr>"
    by (simp add: B001_added_again_eq findBook_def)
  have n: "sentNotifications (notificationService B001_added_again) =
      [(''M001'', ''You have borrowed: Clean Code'')]"
    by (simp add: B001_added_again_eq)
  from returnBook_ignores_availability [OF m b] b n show ?thesis by simp
qed

end
